theory Spec2Isabelle
  imports Complex_Main "HOL-Library.Word" "HOL-Library.Sublist"
begin

section \<open>Audio chunks and peak amplitude\<close>

text \<open>
  A chunk is a Node \<^verbatim>\<open>Buffer\<close>: a sequence of bytes holding signed 16-bit little-endian
  samples. \<^verbatim>\<open>chunk.readInt16LE(i)\<close> reads the bytes at \<open>i\<close> and \<open>i + 1\<close> and throws a
  \<^verbatim>\<open>RangeError\<close> when \<open>i + 1\<close> is past the end, which the loop
  \<^verbatim>\<open>for (let i = 0; i < chunk.length; i += 2)\<close> reaches exactly on a buffer of odd length.
  JavaScript numbers do not wrap at 16 bits, so \<^verbatim>\<open>Math.abs(-32768)\<close> is \<open>32768\<close>: the
  amplitude is an \<^typ>\<open>int\<close>.
\<close>

type_synonym byte = "8 word"
type_synonym buffer = "byte list"

datatype error = RangeError | Error string

definition readInt16LE :: "byte \<Rightarrow> byte \<Rightarrow> int" where
  "readInt16LE lo hi =
     (let u = uint lo + 256 * uint hi in if u \<ge> 32768 then u - 65536 else u)"

fun chunkMaxVolume :: "buffer \<Rightarrow> int \<Rightarrow> error + int" where
  "chunkMaxVolume [] m = Inr m"
| "chunkMaxVolume [b] m = Inl RangeError"
| "chunkMaxVolume (lo # hi # rest) m =
     (let sample = \<bar>readInt16LE lo hi\<bar>
      in chunkMaxVolume rest (if sample > m then sample else m))"

section \<open>Strings\<close>

text \<open>
  Transcripts are modelled as ASCII strings: \<^verbatim>\<open>trim\<close> removes the ASCII white space
  (TAB, LF, VT, FF, CR, SPACE) from both ends, \<^verbatim>\<open>toLowerCase\<close> maps \<open>A\<close>..\<open>Z\<close> to
  \<open>a\<close>..\<open>z\<close>, and \<open>str_includes\<close> is the substring test of \<^verbatim>\<open>String.prototype.includes\<close>.
\<close>

definition isWhiteSpace :: "char \<Rightarrow> bool" where
  "isWhiteSpace c = (let n = (of_char c :: nat) in (9 \<le> n \<and> n \<le> 13) \<or> n = 32)"

definition trim :: "string \<Rightarrow> string" where
  "trim s = rev (dropWhile isWhiteSpace (rev (dropWhile isWhiteSpace s)))"

definition lowerChar :: "char \<Rightarrow> char" where
  "lowerChar c =
     (let n = (of_char c :: nat) in if 65 \<le> n \<and> n \<le> 90 then char_of (n + 32) else c)"

definition toLowerCase :: "string \<Rightarrow> string" where
  "toLowerCase s = map lowerChar s"

fun str_includes :: "string \<Rightarrow> string \<Rightarrow> bool" where
  "str_includes [] p = (p = [])"
| "str_includes (c # cs) p = (prefix p (c # cs) \<or> str_includes cs p)"

section \<open>ContinuousListenerService\<close>

text \<open>
  The fields of the class, followed by what the JavaScript runtime holds for it: the
  promises created by \<^verbatim>\<open>listenForWakeWord\<close> and \<^verbatim>\<open>listenForCommand\<close> are numbered in
  creation order, \<open>currentResolver\<close> and \<open>currentRejector\<close> hold the number of the promise
  whose \<^verbatim>\<open>resolve\<close> and \<^verbatim>\<open>reject\<close> they are, \<open>settled\<close> records every call of such a
  function, \<open>recognizeCalls\<close> every audio buffer handed to
  \<^verbatim>\<open>whisper.recognizeStream\<close>, \<open>awaitingWakeWord\<close> and \<open>awaitingCommand\<close> count the
  invocations of \<^verbatim>\<open>processWakeWord\<close> and \<^verbatim>\<open>processCommand\<close> suspended at their
  \<^verbatim>\<open>await\<close>, and \<open>consoleErrors\<close> what \<^verbatim>\<open>console.error\<close> received.
  \<open>volumeThreshold\<close> is an integer (\<^verbatim>\<open>parseInt\<close> in the caller), \<open>silenceDuration\<close> is
  in seconds.
\<close>

datatype ListenerMode = wake_word | command

datatype settlement = Resolved string | Rejected error

record listener =
  volumeThreshold :: int
  silenceDuration :: real
  chunkBuffer :: "buffer list"
  silenceStartTime :: "int option"
  isProcessing :: bool
  mode :: ListenerMode
  currentResolver :: "nat option"
  currentRejector :: "nat option"
  chunkCount :: nat
  hasReceivedAudio :: bool
  nextPromise :: nat
  settled :: "(nat \<times> settlement) list"
  recognizeCalls :: "buffer list"
  awaitingWakeWord :: nat
  awaitingCommand :: nat
  consoleErrors :: "error list"

definition newListener :: "int \<Rightarrow> real \<Rightarrow> listener" where
  "newListener vt sd =
     \<lparr> volumeThreshold = vt, silenceDuration = sd, chunkBuffer = [],
       silenceStartTime = None, isProcessing = False, mode = wake_word,
       currentResolver = None, currentRejector = None, chunkCount = 0,
       hasReceivedAudio = False, nextPromise = 0, settled = [], recognizeCalls = [],
       awaitingWakeWord = 0, awaitingCommand = 0, consoleErrors = [] \<rparr>"

text \<open>\<^verbatim>\<open>processWakeWord\<close> up to its \<^verbatim>\<open>await\<close>.\<close>

definition processWakeWord :: "listener \<Rightarrow> listener" where
  "processWakeWord s =
     (if isProcessing s \<or> length (chunkBuffer s) = 0 then s
      else s\<lparr> isProcessing := True, chunkBuffer := [], silenceStartTime := None,
              recognizeCalls := recognizeCalls s @ [concat (chunkBuffer s)],
              awaitingWakeWord := awaitingWakeWord s + 1 \<rparr>)"

text \<open>
  \<^verbatim>\<open>processWakeWord\<close> from its \<^verbatim>\<open>await\<close> on: \<open>Inr\<close> is the transcription returned,
  \<open>Inl\<close> the error thrown by \<^verbatim>\<open>recognizeStream\<close>.
\<close>

definition processWakeWord_resume :: "listener \<Rightarrow> error + string \<Rightarrow> listener" where
  "processWakeWord_resume s r =
     (let s1 =
        (case r of
           Inr transcription \<Rightarrow>
             if transcription \<noteq> [] \<and> length (trim transcription) > 0 then
               (let normalizedText = trim (toLowerCase transcription) in
                if str_includes normalizedText ''isis'' \<or> str_includes normalizedText ''ice is'' then
                  (case currentResolver s of
                     Some k \<Rightarrow> s\<lparr> settled := settled s @ [(k, Resolved transcription)],
                                  currentResolver := None, currentRejector := None \<rparr>
                   | None \<Rightarrow> s)
                else s)
             else s
         | Inl e \<Rightarrow> s\<lparr> consoleErrors := consoleErrors s @ [e] \<rparr>)
      in s1\<lparr> isProcessing := False \<rparr>)"

text \<open>\<^verbatim>\<open>processCommand\<close> up to its \<^verbatim>\<open>await\<close>.\<close>

definition processCommand :: "listener \<Rightarrow> listener" where
  "processCommand s =
     (if isProcessing s \<or> length (chunkBuffer s) = 0 \<or> \<not> hasReceivedAudio s then
        (if \<not> hasReceivedAudio s then s\<lparr> chunkBuffer := [], silenceStartTime := None \<rparr>
         else s)
      else s\<lparr> isProcessing := True, chunkBuffer := [],
              recognizeCalls := recognizeCalls s @ [concat (chunkBuffer s)],
              awaitingCommand := awaitingCommand s + 1 \<rparr>)"

text \<open>\<^verbatim>\<open>processCommand\<close> from its \<^verbatim>\<open>await\<close> on.\<close>

definition processCommand_resume :: "listener \<Rightarrow> error + string \<Rightarrow> listener" where
  "processCommand_resume s r =
     (case r of
        Inr transcription \<Rightarrow>
          (case currentResolver s of
             Some k \<Rightarrow> s\<lparr> settled := settled s @ [(k, Resolved transcription)],
                          currentResolver := None, currentRejector := None \<rparr>
           | None \<Rightarrow> s)
      | Inl e \<Rightarrow>
          (case currentRejector s of
             Some k \<Rightarrow> s\<lparr> settled := settled s @ [(k, Rejected e)],
                          currentResolver := None, currentRejector := None \<rparr>
           | None \<Rightarrow> s))"

text \<open>
  \<^verbatim>\<open>handleChunk\<close>, with \<open>now\<close> the value of \<^verbatim>\<open>Date.now()\<close>. The outcome names the path
  taken: the chunk was skipped, \<^verbatim>\<open>readInt16LE\<close> threw, the silence has lasted
  \<open>silenceDuration\<close> (a boundary: \<^verbatim>\<open>processWakeWord\<close> or \<^verbatim>\<open>processCommand\<close> is called), or
  none of these.
\<close>

datatype outcome = Skipped | Threw error | Continue | Boundary

definition handleChunk :: "listener \<Rightarrow> buffer \<Rightarrow> int \<Rightarrow> outcome \<times> listener" where
  "handleChunk s0 chunk now =
     (let s = s0\<lparr> chunkCount := chunkCount s0 + 1 \<rparr> in
      if chunkCount s = 1 then (Skipped, s)
      else if mode s = command \<and> chunkCount s \<le> 5 then (Skipped, s)
      else
        (case chunkMaxVolume chunk 0 of
           Inl e \<Rightarrow> (Threw e, s)
         | Inr v \<Rightarrow>
             (let s1 = (if mode s = command \<and> v \<ge> volumeThreshold s
                        then s\<lparr> hasReceivedAudio := True \<rparr> else s);
                  s2 = s1\<lparr> chunkBuffer := chunkBuffer s1 @ [chunk] \<rparr>
              in if v < volumeThreshold s2 then
                   (case silenceStartTime s2 of
                      None \<Rightarrow> (Continue, s2\<lparr> silenceStartTime := Some now \<rparr>)
                    | Some start \<Rightarrow>
                        if of_int (now - start) \<ge> silenceDuration s2 * 1000 then
                          (Boundary,
                           case mode s2 of
                             wake_word \<Rightarrow> processWakeWord s2
                           | command \<Rightarrow> processCommand s2)
                        else (Continue, s2))
                 else (Continue, s2\<lparr> silenceStartTime := None \<rparr>))))"

text \<open>The \<^verbatim>\<open>'error'\<close> handler installed by \<^verbatim>\<open>startListening\<close>.\<close>

definition onStreamError :: "listener \<Rightarrow> error \<Rightarrow> listener" where
  "onStreamError s e =
     (case currentRejector s of
        Some k \<Rightarrow> s\<lparr> settled := settled s @ [(k, Rejected e)],
                     currentResolver := None, currentRejector := None \<rparr>
      | None \<Rightarrow> s)"

definition listenForWakeWord :: "listener \<Rightarrow> listener" where
  "listenForWakeWord s =
     s\<lparr> mode := wake_word, chunkBuffer := [], silenceStartTime := None,
        isProcessing := False, hasReceivedAudio := False,
        currentResolver := Some (nextPromise s), currentRejector := Some (nextPromise s),
        nextPromise := nextPromise s + 1 \<rparr>"

definition listenForCommand :: "listener \<Rightarrow> listener" where
  "listenForCommand s =
     s\<lparr> mode := command, chunkBuffer := [], silenceStartTime := None,
        isProcessing := False, chunkCount := 0, hasReceivedAudio := False,
        currentResolver := Some (nextPromise s), currentRejector := Some (nextPromise s),
        nextPromise := nextPromise s + 1 \<rparr>"

text \<open>
  What can happen to a listener whose \<^verbatim>\<open>startListening\<close> has been called: the stream
  delivers a chunk or an error, the caller starts a listen, or a suspended
  \<^verbatim>\<open>processWakeWord\<close> or \<^verbatim>\<open>processCommand\<close> gets its transcription (or the error thrown).
  JavaScript runs each of these to completion before the next.
\<close>

datatype event =
    Data buffer int
  | StreamError error
  | ListenForWakeWord
  | ListenForCommand
  | WakeWordTranscribed "error + string"
  | CommandTranscribed "error + string"

fun step :: "listener \<Rightarrow> event \<Rightarrow> listener" where
  "step s (Data chunk now) = snd (handleChunk s chunk now)"
| "step s (StreamError e) = onStreamError s e"
| "step s ListenForWakeWord = listenForWakeWord s"
| "step s ListenForCommand = listenForCommand s"
| "step s (WakeWordTranscribed r) =
     (if awaitingWakeWord s > 0
      then processWakeWord_resume (s\<lparr> awaitingWakeWord := awaitingWakeWord s - 1 \<rparr>) r
      else s)"
| "step s (CommandTranscribed r) =
     (if awaitingCommand s > 0
      then processCommand_resume (s\<lparr> awaitingCommand := awaitingCommand s - 1 \<rparr>) r
      else s)"

fun run :: "listener \<Rightarrow> event list \<Rightarrow> listener" where
  "run s [] = s"
| "run s (e # es) = run (step s e) es"

text \<open>Feeding chunks only, keeping the outcome of each.\<close>

fun feed :: "listener \<Rightarrow> (buffer \<times> int) list \<Rightarrow> outcome list \<times> listener" where
  "feed s [] = ([], s)"
| "feed s ((chunk, now) # rest) =
     (let (out, s1) = handleChunk s chunk now;
          (outs, s2) = feed s1 rest
      in (out # outs, s2))"

text \<open>Chunks arriving every \<open>d\<close> milliseconds, the first one at time \<open>t\<close>.\<close>

fun arriving :: "int \<Rightarrow> int \<Rightarrow> buffer list \<Rightarrow> (buffer \<times> int) list" where
  "arriving t d [] = []"
| "arriving t d (c # cs) = (c, t) # arriving (t + d) d cs"

section \<open>WhisperSTTService\<close>

text \<open>
  \<^verbatim>\<open>recognizeStream\<close> builds the name of a temporary file, constructs a
  \<^verbatim>\<open>wav.FileWriter\<close> on it (a file writer opened on that path), counts the bytes of every
  chunk of the stream in its \<^verbatim>\<open>'data'\<close> handler, and on the writer's \<^verbatim>\<open>'finish'\<close> either
  resolves with the empty string (no byte was counted) or runs \<^verbatim>\<open>node ./transcribe.js\<close> on
  the file. The environment is what the function reads from outside: whether
  \<^verbatim>\<open>/dev/shm\<close> exists, \<^verbatim>\<open>Date.now()\<close> as printed in the file name, what \<^verbatim>\<open>execFile\<close>
  gives (its standard output, or the error it throws), and whether the file exists when
  the \<^verbatim>\<open>catch\<close> block looks. The effects are listed in the order they happen.
\<close>

datatype fs_effect =
    NewWavFileWriter string
  | ExecFile string "string list"
  | UnlinkSync string

datatype stream_end = Finished | StreamFailed error | WriterFailed error

datatype recognition = Settled settlement | Uncaught error

record recognize_env =
  devShmExists :: bool
  dateNow :: string
  execFileResult :: "error + string"
  tempFileExists :: bool

definition tempFile :: "recognize_env \<Rightarrow> string" where
  "tempFile env =
     (if devShmExists env then ''/dev/shm'' else ''/tmp'') @ ''/audio-'' @ dateNow env @ ''.wav''"

text \<open>
  The \<^verbatim>\<open>'data'\<close> handler over the chunks of the stream: \<open>bytesWritten\<close> and
  \<open>maxAmplitude\<close>, or the \<^verbatim>\<open>RangeError\<close> of \<^verbatim>\<open>readInt16LE\<close>, which nothing catches.
\<close>

fun onData :: "nat \<times> int \<Rightarrow> buffer list \<Rightarrow> error + nat \<times> int" where
  "onData (bytesWritten, maxAmplitude) [] = Inr (bytesWritten, maxAmplitude)"
| "onData (bytesWritten, maxAmplitude) (chunk # rest) =
     (case chunkMaxVolume chunk maxAmplitude of
        Inl e \<Rightarrow> Inl e
      | Inr m \<Rightarrow> onData (bytesWritten + length chunk, m) rest)"

definition recognizeStream ::
  "string \<Rightarrow> recognize_env \<Rightarrow> buffer list \<Rightarrow> stream_end \<Rightarrow> fs_effect list \<times> recognition" where
  "recognizeStream modelPath env chunks ending =
     (let tmp = tempFile env; opened = [NewWavFileWriter tmp] in
      case onData (0, 0) chunks of
        Inl e \<Rightarrow> (opened, Uncaught e)
      | Inr (bytesWritten, maxAmplitude) \<Rightarrow>
          (case ending of
             StreamFailed e \<Rightarrow> (opened, Settled (Rejected e))
           | WriterFailed e \<Rightarrow> (opened, Settled (Rejected e))
           | Finished \<Rightarrow>
               if bytesWritten = 0 then (opened, Settled (Resolved []))
               else
                 (let exec = ExecFile ''node'' [''./transcribe.js'', tmp, modelPath] in
                  case execFileResult env of
                    Inr stdout \<Rightarrow>
                      (opened @ [exec, UnlinkSync tmp], Settled (Resolved (trim stdout)))
                  | Inl e \<Rightarrow>
                      (opened @ [exec] @ (if tempFileExists env then [UnlinkSync tmp] else []),
                       Settled (Rejected e)))))"

section \<open>ChatGPTService\<close>

text \<open>
  The service keeps the conversation history; \<^verbatim>\<open>sendMessage\<close> pushes the user's message,
  calls the API with the history, and pushes the assistant's message when the call
  returns. The API is a parameter: from the request to the completion's \<open>choices\<close>, or to
  the error thrown. \<^verbatim>\<open>choices[0]?.message?.content || ''\<close> is the empty string when
  there is no first choice, no message or no content.
\<close>

datatype Role = system | user | assistant

record Message =
  role :: Role
  content :: string

datatype reply = Reply (reply_content: "string option")

datatype choice = Choice (message: "reply option")

record request =
  request_model :: string
  messages :: "Message list"
  temperature :: real
  max_tokens :: nat

record ChatGPTService =
  conversationHistory :: "Message list"
  model :: string

definition newChatGPTService :: "string \<Rightarrow> ChatGPTService" where
  "newChatGPTService m =
     \<lparr> conversationHistory =
         [\<lparr> role = system,
            content = ''You are a helpful voice assistant. Provide clear, concise responses suitable for text-to-speech output. Keep responses conversational and natural.'' \<rparr>],
       model = m \<rparr>"

definition firstContent :: "choice list \<Rightarrow> string" where
  "firstContent choices =
     (case choices of
        [] \<Rightarrow> []
      | c # _ \<Rightarrow>
          (case message c of
             None \<Rightarrow> []
           | Some m \<Rightarrow> (case reply_content m of None \<Rightarrow> [] | Some t \<Rightarrow> t)))"

definition sendMessage ::
  "(request \<Rightarrow> error + choice list) \<Rightarrow> ChatGPTService \<Rightarrow> string \<Rightarrow>
     (error + string) \<times> ChatGPTService" where
  "sendMessage create s userMessage =
     (let s1 = s\<lparr> conversationHistory :=
                   conversationHistory s @ [\<lparr> role = user, content = userMessage \<rparr>] \<rparr>
      in case create \<lparr> request_model = model s1, messages = conversationHistory s1,
                      temperature = 7 / 10, max_tokens = 500 \<rparr> of
           Inr choices \<Rightarrow>
             (let assistantMessage = firstContent choices
              in (Inr assistantMessage,
                  s1\<lparr> conversationHistory :=
                       conversationHistory s1
                         @ [\<lparr> role = assistant, content = assistantMessage \<rparr>] \<rparr>))
         | Inl e \<Rightarrow> (Inl e, s1))"

section \<open>Invariants\<close>

text \<open>
  The promises of a listener are in order when no promise has been settled twice, every
  settled promise has been created, and the resolver and the rejector held belong to a
  promise that has been created and is not settled.
\<close>

definition promises_ok :: "listener \<Rightarrow> bool" where
  "promises_ok s =
     (distinct (map fst (settled s)) \<and>
      list_all (\<lambda>k. k < nextPromise s) (map fst (settled s)) \<and>
      (case currentResolver s of None \<Rightarrow> True
       | Some k \<Rightarrow> k < nextPromise s \<and> k \<notin> set (map fst (settled s))) \<and>
      (case currentRejector s of None \<Rightarrow> True
       | Some k \<Rightarrow> k < nextPromise s \<and> k \<notin> set (map fst (settled s))))"

text \<open>
  The next chunk will be skipped when none has been counted yet, or fewer than five in
  command mode; until then the silence timer has not been started.
\<close>

definition skipping :: "listener \<Rightarrow> bool" where
  "skipping s = (chunkCount s = 0 \<or> (mode s = command \<and> chunkCount s < 5))"

definition timer_ok :: "listener \<Rightarrow> bool" where
  "timer_ok s = (if skipping s then silenceStartTime s = None else True)"

text \<open>
  The events that set \<open>isProcessing\<close> to false: a listen request, and the return (or
  failure) of a transcription that a suspended \<^verbatim>\<open>processWakeWord\<close> is waiting for.
\<close>

definition clearsProcessing :: "listener \<Rightarrow> event \<Rightarrow> bool" where
  "clearsProcessing s e =
     (case e of
        ListenForWakeWord \<Rightarrow> True
      | ListenForCommand \<Rightarrow> True
      | WakeWordTranscribed r \<Rightarrow> awaitingWakeWord s > 0
      | Data c t \<Rightarrow> False
      | StreamError x \<Rightarrow> False
      | CommandTranscribed r \<Rightarrow> False)"

section \<open>Evaluation and strings\<close>

lemmas listener_defs = handleChunk_def processWakeWord_def processCommand_def
  processWakeWord_resume_def processCommand_resume_def onStreamError_def
  listenForWakeWord_def listenForCommand_def newListener_def readInt16LE_def Let_def

lemmas string_defs = trim_def toLowerCase_def lowerChar_def isWhiteSpace_def

lemma str_includes_sublist: "str_includes s p = sublist p s"
  by (induction s) (auto simp: sublist_Cons_right)

lemma isWhiteSpace_lowerChar [simp]: "isWhiteSpace (lowerChar c) = isWhiteSpace c"
  by (auto simp: isWhiteSpace_def lowerChar_def Let_def)



section \<open>Pure silence\<close>

lemma handleChunk_command_silent:
  assumes "mode s = command" and "\<not> hasReceivedAudio s"
      and "\<forall>v. chunkMaxVolume c 0 = Inr v \<longrightarrow> v < volumeThreshold s"
      and "handleChunk s c now = (out, s')"
  shows "mode s' = command \<and> \<not> hasReceivedAudio s' \<and> volumeThreshold s' = volumeThreshold s \<and>
         recognizeCalls s' = recognizeCalls s \<and> awaitingCommand s' = awaitingCommand s \<and>
         awaitingWakeWord s' = awaitingWakeWord s \<and> settled s' = settled s \<and>
         currentResolver s' = currentResolver s \<and> currentRejector s' = currentRejector s \<and>
         (out = Boundary \<longrightarrow> chunkBuffer s' = [] \<and> silenceStartTime s' = None)"
  using assms
  by (auto simp: handleChunk_def processCommand_def Let_def
      split: sum.splits option.splits if_splits)

lemma feed_Cons:
  "feed s ((c, t) # rest) =
     (fst (handleChunk s c t) # fst (feed (snd (handleChunk s c t)) rest),
      snd (feed (snd (handleChunk s c t)) rest))"
  by (simp split: prod.splits)

lemma feed_length: "length (fst (feed s cs)) = length cs"
proof (induction cs arbitrary: s)
  case Nil
  then show ?case by simp
next
  case (Cons x cs)
  obtain c t where x: "x = (c, t)" by (cases x)
  show ?case using Cons.IH x by (simp only: feed_Cons) simp
qed

text \<open>
  C1, as the code has it. In command mode, starting with \<open>hasReceivedAudio\<close> false (as
  every listen request leaves it) and for as long as no chunk reaches the volume threshold,
  no chunk that is fed invokes the transcription: nothing is handed to
  \<^verbatim>\<open>recognizeStream\<close>, nothing is settled, the resolver and the rejector stay, the mode
  is unchanged, and when the last chunk fed fires a boundary the buffer is empty and the
  silence timer is unset afterwards.
\<close>

theorem command_silence_not_transcribed:
  assumes "mode s = command" and "\<not> hasReceivedAudio s"
      and "\<forall>(c, t) \<in> set cs. \<forall>v. chunkMaxVolume c 0 = Inr v \<longrightarrow> v < volumeThreshold s"
      and "feed s cs = (outs, s')"
  shows "recognizeCalls s' = recognizeCalls s \<and> awaitingCommand s' = awaitingCommand s \<and>
         settled s' = settled s \<and>
         currentResolver s' = currentResolver s \<and> currentRejector s' = currentRejector s \<and>
         mode s' = command \<and> \<not> hasReceivedAudio s' \<and>
         (outs \<noteq> [] \<and> last outs = Boundary \<longrightarrow> chunkBuffer s' = [] \<and> silenceStartTime s' = None)"
  using assms
proof (induction cs arbitrary: s outs)
  case Nil
  then show ?case by simp
next
  case (Cons x cs)
  obtain c t where x: "x = (c, t)" by (cases x)
  obtain out s1 where h: "handleChunk s c t = (out, s1)" by (cases "handleChunk s c t")
  obtain outs1 where f: "feed s1 cs = (outs1, s')" and o: "outs = out # outs1"
    using Cons.prems(4) x h by (auto split: prod.splits)
  have q: "\<forall>v. chunkMaxVolume c 0 = Inr v \<longrightarrow> v < volumeThreshold s"
    using Cons.prems(3) x by auto
  note one = handleChunk_command_silent [OF Cons.prems(1,2) q h]
  have rest: "\<forall>(c, t) \<in> set cs. \<forall>v. chunkMaxVolume c 0 = Inr v \<longrightarrow> v < volumeThreshold s1"
    using Cons.prems(3) one by auto
  have ih: "recognizeCalls s' = recognizeCalls s1 \<and> awaitingCommand s' = awaitingCommand s1 \<and>
         settled s' = settled s1 \<and>
         currentResolver s' = currentResolver s1 \<and> currentRejector s' = currentRejector s1 \<and>
         mode s' = command \<and> \<not> hasReceivedAudio s' \<and>
         (outs1 \<noteq> [] \<and> last outs1 = Boundary \<longrightarrow> chunkBuffer s' = [] \<and> silenceStartTime s' = None)"
    using Cons.IH [of s1 outs1] one rest f by simp
  show ?case
  proof (cases cs)
    case Nil
    then have "s' = s1" "outs1 = []" using f by auto
    then show ?thesis using one o by simp
  next
    case (Cons y ys)
    then have "outs1 \<noteq> []" using f feed_length [of s1 cs] by auto
    then show ?thesis using ih one o by simp
  qed
qed

theorem command_silence_not_transcribed_witness:
  "feed (listenForCommand (newListener 900 1.5))
        (arriving 100 100 [[0, 0], [0, 0], [0, 0], [0, 0], [0, 0], [1, 0], [0, 0]] @ [([2, 0], 2200)])
     = ([Skipped, Skipped, Skipped, Skipped, Skipped, Continue, Continue, Boundary],
        (listenForCommand (newListener 900 1.5))\<lparr> chunkCount := 8 \<rparr>)"
  using command_silence_not_transcribed [of "listenForCommand (newListener 900 1.5)"
      "arriving 100 100 [[0, 0], [0, 0], [0, 0], [0, 0], [0, 0], [1, 0], [0, 0]] @ [([2, 0], 2200)]"
      "[Skipped, Skipped, Skipped, Skipped, Skipped, Continue, Continue, Boundary]"
      "(listenForCommand (newListener 900 1.5))\<lparr> chunkCount := 8 \<rparr>"]
  by (simp add: listener_defs)

text \<open>
  C1 as stated fails in wake-word mode, where no flag is consulted: after the skipped
  first chunk, two silent chunks 1.5 s apart fire a boundary and the two are handed to
  the transcription.
\<close>

theorem wake_word_silence_counterexample:
  "feed (listenForWakeWord (newListener 900 1.5)) [([0, 0], 100), ([0, 0], 200), ([0, 0], 1700)]
     = ([Skipped, Continue, Boundary],
        (listenForWakeWord (newListener 900 1.5))
          \<lparr> chunkCount := 3, isProcessing := True, awaitingWakeWord := 1,
            recognizeCalls := [[0, 0, 0, 0]] \<rparr>)"
  by (simp add: listener_defs)

section \<open>Leading chunks\<close>

lemma feed_command_skips:
  "mode s = command \<Longrightarrow> chunkCount s + length cs \<le> 5 \<Longrightarrow>
   feed s cs = (replicate (length cs) Skipped, s\<lparr> chunkCount := chunkCount s + length cs \<rparr>)"
proof (induction cs arbitrary: s)
  case Nil
  then show ?case by simp
next
  case (Cons x cs)
  obtain c t where x: "x = (c, t)" by (cases x)
  have h: "handleChunk s c t = (Skipped, s\<lparr> chunkCount := chunkCount s + 1 \<rparr>)"
    using Cons.prems by (simp add: handleChunk_def Let_def)
  show ?case
    using Cons.IH [of "s\<lparr> chunkCount := chunkCount s + 1 \<rparr>"] Cons.prems x h
    by simp
qed

text \<open>
  C2, as the code has it. \<^verbatim>\<open>listenForWakeWord\<close> leaves the chunk counter as it is: the
  chunk after it is skipped, untouched but for the counter, when no chunk has been counted
  yet; otherwise it is measured and, unless \<^verbatim>\<open>readInt16LE\<close> throws on its odd length,
  it becomes the one chunk of the buffer and starts or clears the silence timer by its
  peak. \<^verbatim>\<open>listenForCommand\<close> resets the counter: the five chunks after it are skipped,
  untouched but for the counter, and the sixth is measured and buffered in the same way,
  and sets \<open>hasReceivedAudio\<close> when its peak reaches the threshold.
\<close>

theorem leading_chunks_skipped:
  "(chunkCount s = 0 \<longrightarrow>
      handleChunk (listenForWakeWord s) c t = (Skipped, (listenForWakeWord s)\<lparr> chunkCount := 1 \<rparr>)) \<and>
   (chunkCount s > 0 \<longrightarrow>
      handleChunk (listenForWakeWord s) c t =
        (case chunkMaxVolume c 0 of
           Inl e \<Rightarrow> (Threw e, (listenForWakeWord s)\<lparr> chunkCount := chunkCount s + 1 \<rparr>)
         | Inr v \<Rightarrow>
             (Continue,
              (listenForWakeWord s)
                \<lparr> chunkCount := chunkCount s + 1, chunkBuffer := [c],
                  silenceStartTime := (if v < volumeThreshold s then Some t else None) \<rparr>))) \<and>
   chunkCount (listenForWakeWord s) = chunkCount s \<and>
   (length cs \<le> 5 \<longrightarrow>
      feed (listenForCommand s) cs =
        (replicate (length cs) Skipped, (listenForCommand s)\<lparr> chunkCount := length cs \<rparr>)) \<and>
   (length cs = 5 \<longrightarrow>
      handleChunk (snd (feed (listenForCommand s) cs)) c t =
        (case chunkMaxVolume c 0 of
           Inl e \<Rightarrow> (Threw e, (listenForCommand s)\<lparr> chunkCount := 6 \<rparr>)
         | Inr v \<Rightarrow>
             (Continue,
              (listenForCommand s)
                \<lparr> chunkCount := 6, hasReceivedAudio := (v \<ge> volumeThreshold s),
                  chunkBuffer := [c],
                  silenceStartTime := (if v < volumeThreshold s then Some t else None) \<rparr>)))"
proof -
  have a: "chunkCount s = 0 \<longrightarrow>
      handleChunk (listenForWakeWord s) c t = (Skipped, (listenForWakeWord s)\<lparr> chunkCount := 1 \<rparr>)"
    by (simp add: handleChunk_def listenForWakeWord_def Let_def)
  have b: "chunkCount s > 0 \<longrightarrow>
      handleChunk (listenForWakeWord s) c t =
        (case chunkMaxVolume c 0 of
           Inl e \<Rightarrow> (Threw e, (listenForWakeWord s)\<lparr> chunkCount := chunkCount s + 1 \<rparr>)
         | Inr v \<Rightarrow>
             (Continue,
              (listenForWakeWord s)
                \<lparr> chunkCount := chunkCount s + 1, chunkBuffer := [c],
                  silenceStartTime := (if v < volumeThreshold s then Some t else None) \<rparr>))"
    by (simp add: handleChunk_def listenForWakeWord_def Let_def split: sum.splits)
  have c: "chunkCount (listenForWakeWord s) = chunkCount s"
    by (simp add: listenForWakeWord_def)
  have d: "length cs \<le> 5 \<longrightarrow>
      feed (listenForCommand s) cs =
        (replicate (length cs) Skipped, (listenForCommand s)\<lparr> chunkCount := length cs \<rparr>)"
    using feed_command_skips [of "listenForCommand s" cs]
    by (simp add: listenForCommand_def)
  have e: "length cs = 5 \<longrightarrow>
      handleChunk (snd (feed (listenForCommand s) cs)) c t =
        (case chunkMaxVolume c 0 of
           Inl e \<Rightarrow> (Threw e, (listenForCommand s)\<lparr> chunkCount := 6 \<rparr>)
         | Inr v \<Rightarrow>
             (Continue,
              (listenForCommand s)
                \<lparr> chunkCount := 6, hasReceivedAudio := (v \<ge> volumeThreshold s),
                  chunkBuffer := [c],
                  silenceStartTime := (if v < volumeThreshold s then Some t else None) \<rparr>))"
    using d by (auto simp: handleChunk_def listenForCommand_def Let_def split: sum.splits)
  from a b c d e show ?thesis by blast
qed

theorem leading_chunks_skipped_witness:
  "handleChunk (listenForWakeWord (newListener 900 1.5)) [232, 3] 100
     = (Skipped, (listenForWakeWord (newListener 900 1.5))\<lparr> chunkCount := 1 \<rparr>) \<and>
   handleChunk (listenForWakeWord ((newListener 900 1.5)\<lparr> chunkCount := 7 \<rparr>)) [232, 3] 100
     = (Continue,
        (listenForWakeWord (newListener 900 1.5))\<lparr> chunkCount := 8, chunkBuffer := [[232, 3]] \<rparr>) \<and>
   feed (listenForCommand (newListener 900 1.5))
        (arriving 100 100 [[232, 3], [232, 3], [232, 3], [232, 3], [232, 3]])
     = ([Skipped, Skipped, Skipped, Skipped, Skipped],
        (listenForCommand (newListener 900 1.5))\<lparr> chunkCount := 5 \<rparr>) \<and>
   handleChunk (snd (feed (listenForCommand (newListener 900 1.5))
        (arriving 100 100 [[232, 3], [232, 3], [232, 3], [232, 3], [232, 3]]))) [232, 3] 600
     = (Continue,
        (listenForCommand (newListener 900 1.5))
          \<lparr> chunkCount := 6, hasReceivedAudio := True, chunkBuffer := [[232, 3]] \<rparr>)"
  using
    leading_chunks_skipped [of "newListener 900 1.5" "[232, 3]" 100
      "arriving 100 100 [[232, 3], [232, 3], [232, 3], [232, 3], [232, 3]]"]
    leading_chunks_skipped [of "(newListener 900 1.5)\<lparr> chunkCount := 7 \<rparr>" "[232, 3]" 100 "[]"]
  by (simp add: listener_defs)

text \<open>
  C2 as stated fails on the second entry into wake-word mode: two chunks have been
  counted, and the chunk that follows \<^verbatim>\<open>listenForWakeWord\<close> is measured and buffered.
\<close>

theorem wake_word_reentry_counterexample:
  "feed (listenForWakeWord (snd (feed (listenForWakeWord (newListener 900 1.5))
           [([232, 3], 100), ([232, 3], 200)])))
        [([232, 3], 300)]
     = ([Continue],
        (listenForWakeWord (newListener 900 1.5))
          \<lparr> chunkCount := 3, chunkBuffer := [[232, 3]], nextPromise := 2,
            currentResolver := Some 1, currentRejector := Some 1 \<rparr>)"
  by (simp add: listener_defs)

section \<open>The silence timer\<close>

lemma step_timer_ok: "timer_ok s \<Longrightarrow> timer_ok (step s e)"
proof (cases e)
  case (Data c t)
  then show "timer_ok s \<Longrightarrow> timer_ok (step s e)"
    by (auto simp: timer_ok_def skipping_def handleChunk_def processWakeWord_def
        processCommand_def Let_def split: sum.splits option.splits ListenerMode.splits if_splits)
next
  case (StreamError x)
  then show "timer_ok s \<Longrightarrow> timer_ok (step s e)"
    by (auto simp: timer_ok_def skipping_def onStreamError_def split: option.splits if_splits)
next
  case ListenForWakeWord
  then show "timer_ok s \<Longrightarrow> timer_ok (step s e)"
    by (simp add: timer_ok_def skipping_def listenForWakeWord_def)
next
  case ListenForCommand
  then show "timer_ok s \<Longrightarrow> timer_ok (step s e)"
    by (simp add: timer_ok_def skipping_def listenForCommand_def)
next
  case (WakeWordTranscribed r)
  then show "timer_ok s \<Longrightarrow> timer_ok (step s e)"
    by (auto simp: timer_ok_def skipping_def processWakeWord_resume_def Let_def
        split: option.splits sum.splits if_splits)
next
  case (CommandTranscribed r)
  then show "timer_ok s \<Longrightarrow> timer_ok (step s e)"
    by (auto simp: timer_ok_def skipping_def processCommand_resume_def
        split: option.splits sum.splits if_splits)
qed

lemma run_timer_ok: "timer_ok s \<Longrightarrow> timer_ok (run s evs)"
  by (induction evs arbitrary: s) (simp_all add: step_timer_ok)

lemma newListener_timer_ok: "timer_ok (newListener vt sd)"
  by (simp add: timer_ok_def newListener_def)

lemma loud_chunk_clears_timer:
  assumes "timer_ok s" and "chunkMaxVolume c 0 = Inr v" and "v \<ge> volumeThreshold s"
  shows "silenceStartTime (snd (handleChunk s c now)) = None"
  using assms
  by (auto simp: timer_ok_def skipping_def handleChunk_def Let_def split: if_splits)

lemma quiet_chunk_starts_timer:
  assumes "silenceStartTime s = None" and "chunkMaxVolume c 0 = Inr v"
      and "v < volumeThreshold s" and "fst (handleChunk s c now) \<noteq> Skipped"
  shows "handleChunk s c now =
           (Continue, s\<lparr> chunkCount := chunkCount s + 1, chunkBuffer := chunkBuffer s @ [c],
                         silenceStartTime := Some now \<rparr>)"
  using assms
  by (auto simp: handleChunk_def Let_def split: if_splits)

lemma boundary_timer:
  assumes "handleChunk s c now = (Boundary, s')"
  shows "(mode s = wake_word \<and> \<not> isProcessing s \<longrightarrow>
            silenceStartTime s' = None \<and> chunkBuffer s' = [] \<and>
            recognizeCalls s' = recognizeCalls s @ [concat (chunkBuffer s @ [c])]) \<and>
         (mode s = command \<and> \<not> hasReceivedAudio s \<longrightarrow>
            silenceStartTime s' = None \<and> chunkBuffer s' = [] \<and>
            recognizeCalls s' = recognizeCalls s) \<and>
         (isProcessing s \<and> (mode s = wake_word \<or> hasReceivedAudio s) \<longrightarrow>
            silenceStartTime s' = silenceStartTime s \<and> silenceStartTime s' \<noteq> None \<and>
            recognizeCalls s' = recognizeCalls s)"
  using assms
  by (auto simp: handleChunk_def processWakeWord_def processCommand_def Let_def
      split: sum.splits option.splits ListenerMode.splits if_splits)

text \<open>
  C4, as the code has it. In every state a listener can reach: the silence timer is unset
  after a chunk whose peak reaches the threshold; a measured chunk below the threshold
  starts it at the chunk's arrival when it was unset; both listen requests unset it; and a
  boundary unsets it when it is dispatched in wake-word mode or discarded as pure silence
  in command mode, and leaves it running when it is dropped because a transcription is
  in flight.
\<close>

theorem silence_timer:
  fixes vt :: int and sd :: real and evs :: "event list" and c :: buffer and now :: int
  defines "s \<equiv> run (newListener vt sd) evs"
  shows
   "(\<forall>v. chunkMaxVolume c 0 = Inr v \<and> v \<ge> volumeThreshold s \<longrightarrow>
         silenceStartTime (snd (handleChunk s c now)) = None) \<and>
    (\<forall>v. silenceStartTime s = None \<and> chunkMaxVolume c 0 = Inr v \<and> v < volumeThreshold s \<and>
         fst (handleChunk s c now) \<noteq> Skipped \<longrightarrow>
         silenceStartTime (snd (handleChunk s c now)) = Some now) \<and>
    silenceStartTime (listenForWakeWord s) = None \<and>
    silenceStartTime (listenForCommand s) = None \<and>
    (fst (handleChunk s c now) = Boundary \<longrightarrow>
       (mode s = wake_word \<and> \<not> isProcessing s \<longrightarrow>
          silenceStartTime (snd (handleChunk s c now)) = None) \<and>
       (mode s = command \<and> \<not> hasReceivedAudio s \<longrightarrow>
          silenceStartTime (snd (handleChunk s c now)) = None) \<and>
       (isProcessing s \<and> (mode s = wake_word \<or> hasReceivedAudio s) \<longrightarrow>
          silenceStartTime (snd (handleChunk s c now)) = silenceStartTime s \<and>
          silenceStartTime s \<noteq> None))"
proof -
  have ok: "timer_ok s"
    unfolding s_def by (rule run_timer_ok [OF newListener_timer_ok])
  have a: "\<forall>v. chunkMaxVolume c 0 = Inr v \<and> v \<ge> volumeThreshold s \<longrightarrow>
         silenceStartTime (snd (handleChunk s c now)) = None"
    using loud_chunk_clears_timer [OF ok] by blast
  have b: "\<forall>v. silenceStartTime s = None \<and> chunkMaxVolume c 0 = Inr v \<and> v < volumeThreshold s \<and>
         fst (handleChunk s c now) \<noteq> Skipped \<longrightarrow>
         silenceStartTime (snd (handleChunk s c now)) = Some now"
    using quiet_chunk_starts_timer [of s c _ now] by auto
  have c: "silenceStartTime (listenForWakeWord s) = None \<and>
           silenceStartTime (listenForCommand s) = None"
    by (simp add: listenForWakeWord_def listenForCommand_def)
  have d: "fst (handleChunk s c now) = Boundary \<longrightarrow>
       (mode s = wake_word \<and> \<not> isProcessing s \<longrightarrow>
          silenceStartTime (snd (handleChunk s c now)) = None) \<and>
       (mode s = command \<and> \<not> hasReceivedAudio s \<longrightarrow>
          silenceStartTime (snd (handleChunk s c now)) = None) \<and>
       (isProcessing s \<and> (mode s = wake_word \<or> hasReceivedAudio s) \<longrightarrow>
          silenceStartTime (snd (handleChunk s c now)) = silenceStartTime s \<and>
          silenceStartTime s \<noteq> None)"
    using boundary_timer [of s c now "snd (handleChunk s c now)"]
    by (cases "handleChunk s c now") (simp, metis)
  from a b c d show ?thesis by blast
qed

theorem silence_timer_witness:
  "handleChunk (run (newListener 900 1.5)
        [ListenForWakeWord, Data [0, 0] 100, Data [232, 3] 200, Data [0, 0] 300]) [0, 0] 1800
     = (Boundary,
        (listenForWakeWord (newListener 900 1.5))
          \<lparr> chunkCount := 4, isProcessing := True, awaitingWakeWord := 1,
            recognizeCalls := [[232, 3, 0, 0, 0, 0]] \<rparr>) \<and>
   silenceStartTime (snd (handleChunk (run (newListener 900 1.5)
        [ListenForWakeWord, Data [0, 0] 100, Data [232, 3] 200, Data [0, 0] 300]) [232, 3] 400))
     = None \<and>
   silenceStartTime (snd (handleChunk (run (newListener 900 1.5)
        [ListenForWakeWord, Data [0, 0] 100, Data [232, 3] 200]) [0, 0] 300))
     = Some 300"
  using
    silence_timer [of "[0, 0]" 900 "1.5"
      "[ListenForWakeWord, Data [0, 0] 100, Data [232, 3] 200, Data [0, 0] 300]" 1800]
    silence_timer [of "[232, 3]" 900 "1.5"
      "[ListenForWakeWord, Data [0, 0] 100, Data [232, 3] 200, Data [0, 0] 300]" 400]
    silence_timer [of "[0, 0]" 900 "1.5"
      "[ListenForWakeWord, Data [0, 0] 100, Data [232, 3] 200]" 300]
  by (simp add: listener_defs)

text \<open>
  C4 as stated fails at a boundary that fires while a transcription is in flight: the
  fourth chunk dispatches, the sixth fires a boundary 1.5 s after the fifth, and the
  timer still holds the arrival of the fifth.
\<close>

theorem dropped_boundary_counterexample:
  "feed (listenForWakeWord (newListener 900 1.5))
        [([0, 0], 100), ([232, 3], 200), ([0, 0], 300), ([0, 0], 1800),
         ([0, 0], 1900), ([0, 0], 3400)]
     = ([Skipped, Continue, Continue, Boundary, Continue, Boundary],
        (listenForWakeWord (newListener 900 1.5))
          \<lparr> chunkCount := 6, isProcessing := True, awaitingWakeWord := 1,
            recognizeCalls := [[232, 3, 0, 0, 0, 0]],
            chunkBuffer := [[0, 0], [0, 0]], silenceStartTime := Some 1900 \<rparr>)"
  by (simp add: listener_defs)

section \<open>Speech followed by silence\<close>

lemma feed_append:
  "feed s (xs @ ys) =
     (fst (feed s xs) @ fst (feed (snd (feed s xs)) ys), snd (feed (snd (feed s xs)) ys))"
proof (induction xs arbitrary: s)
  case Nil
  then show ?case by simp
next
  case (Cons x xs)
  obtain c t where x: "x = (c, t)" by (cases x)
  show ?case using Cons.IH [of "snd (handleChunk s c t)"] x
    by (simp only: feed_Cons append_Cons) simp
qed

lemma feed_one: "handleChunk s c t = (out, s1) \<Longrightarrow> feed s [(c, t)] = ([out], s1)"
  by simp

lemma feed_step:
  "handleChunk s c t = (out, s1) \<Longrightarrow> feed s1 rest = (outs, s2) \<Longrightarrow>
   feed s ((c, t) # rest) = (out # outs, s2)"
  by simp

lemma feed_app:
  "feed s xs = (outs1, s1) \<Longrightarrow> feed s1 ys = (outs2, s2) \<Longrightarrow>
   feed s (xs @ ys) = (outs1 @ outs2, s2)"
  by (simp add: feed_append)

lemma arriving_append:
  "arriving t d (xs @ ys) = arriving t d xs @ arriving (t + d * int (length xs)) d ys"
  by (induction xs arbitrary: t) (simp_all add: algebra_simps)

lemma map_fst_arriving: "map fst (arriving t d cs) = cs"
  by (induction cs arbitrary: t) simp_all

lemma length_arriving: "length (arriving t d cs) = length cs"
  by (induction cs arbitrary: t) simp_all

lemma arriving_set:
  "(c, u) \<in> set (arriving t d cs) \<Longrightarrow> 0 \<le> d \<Longrightarrow>
   c \<in> set cs \<and> t \<le> u \<and> u \<le> t + d * (int (length cs) - 1)"
proof (induction cs arbitrary: t)
  case Nil
  then show ?case by simp
next
  case (Cons a cs)
  show ?case
  proof (cases "(c, u) = (a, t)")
    case True
    then show ?thesis using Cons.prems(2) by simp
  next
    case False
    then have "(c, u) \<in> set (arriving (t + d) d cs)" using Cons.prems(1) by auto
    from Cons.IH [OF this Cons.prems(2)] Cons.prems(2) show ?thesis
      by (auto simp: algebra_simps)
  qed
qed

lemma feed_loud:
  assumes "\<not> skipping s" and "silenceStartTime s = None"
      and "mode s = wake_word \<or> hasReceivedAudio s"
      and "\<forall>(c, t) \<in> set xs. \<exists>v. chunkMaxVolume c 0 = Inr v \<and> v \<ge> volumeThreshold s"
  shows "feed s xs =
           (replicate (length xs) Continue,
            s\<lparr> chunkCount := chunkCount s + length xs,
               chunkBuffer := chunkBuffer s @ map fst xs \<rparr>)"
  using assms
proof (induction xs arbitrary: s)
  case Nil
  then show ?case by simp
next
  case (Cons x xs)
  obtain c t where x: "x = (c, t)" by (cases x)
  obtain v where v: "chunkMaxVolume c 0 = Inr v" "v \<ge> volumeThreshold s"
    using Cons.prems(4) x by auto
  let ?s1 = "s\<lparr> chunkCount := chunkCount s + 1, chunkBuffer := chunkBuffer s @ [c] \<rparr>"
  have h: "handleChunk s c t = (Continue, ?s1)"
    using Cons.prems(1,2,3) v
    by (cases s) (auto simp: handleChunk_def skipping_def Let_def)
  have "feed ?s1 xs =
           (replicate (length xs) Continue,
            ?s1\<lparr> chunkCount := chunkCount ?s1 + length xs,
               chunkBuffer := chunkBuffer ?s1 @ map fst xs \<rparr>)"
    using Cons.prems by (intro Cons.IH) (auto simp: skipping_def)
  then show ?case using x h by simp
qed

lemma feed_quiet:
  assumes "\<not> skipping s" and "silenceStartTime s = Some t0"
      and "\<forall>(c, t) \<in> set xs. (\<exists>v. chunkMaxVolume c 0 = Inr v \<and> v < volumeThreshold s) \<and>
             of_int (t - t0) < silenceDuration s * 1000"
  shows "feed s xs =
           (replicate (length xs) Continue,
            s\<lparr> chunkCount := chunkCount s + length xs,
               chunkBuffer := chunkBuffer s @ map fst xs \<rparr>)"
  using assms
proof (induction xs arbitrary: s)
  case Nil
  then show ?case by simp
next
  case (Cons x xs)
  obtain c t where x: "x = (c, t)" by (cases x)
  obtain v where v: "chunkMaxVolume c 0 = Inr v" "v < volumeThreshold s"
    and el: "of_int (t - t0) < silenceDuration s * 1000"
    using Cons.prems(3) x by auto
  let ?s1 = "s\<lparr> chunkCount := chunkCount s + 1, chunkBuffer := chunkBuffer s @ [c] \<rparr>"
  have h: "handleChunk s c t = (Continue, ?s1)"
    using Cons.prems(1,2) v el
    by (auto simp: handleChunk_def skipping_def Let_def)
  have "feed ?s1 xs =
           (replicate (length xs) Continue,
            ?s1\<lparr> chunkCount := chunkCount ?s1 + length xs,
               chunkBuffer := chunkBuffer ?s1 @ map fst xs \<rparr>)"
    using Cons.prems by (intro Cons.IH) (auto simp: skipping_def)
  then show ?case using x h by simp
qed

lemma speech_then_silence_split:
  assumes "length loud = 20" and "length quiet = 16"
  obtains l1 ls q1 qm ql where "loud = l1 # ls" and "length ls = 19"
    and "quiet = q1 # qm @ [ql]" and "length qm = 14"
proof -
  obtain l1 ls where l: "loud = l1 # ls" "length ls = 19"
    using assms(1) by (cases loud) auto
  obtain q1 qs where q: "quiet = q1 # qs" "length qs = 15"
    using assms(2) by (cases quiet) auto
  obtain ql qm where m: "qs = qm @ [ql]" "length qm = 14"
    using q(2) by (cases qs rule: rev_cases) auto
  show thesis using that l q m by simp
qed

lemma wake_word_speech_then_silence:
  assumes "length loud = 20"
      and "\<forall>c \<in> set loud. \<exists>v. chunkMaxVolume c 0 = Inr v \<and> v \<ge> 900"
      and "length quiet = 16"
      and "\<forall>c \<in> set quiet. \<exists>v. chunkMaxVolume c 0 = Inr v \<and> v < 900"
  shows "feed (listenForWakeWord (newListener 900 (3 / 2))) (arriving t 100 (loud @ quiet)) =
           (Skipped # replicate 34 Continue @ [Boundary],
            (listenForWakeWord (newListener 900 (3 / 2)))
              \<lparr> chunkCount := 36, isProcessing := True, awaitingWakeWord := 1,
                recognizeCalls := [concat (tl (loud @ quiet))] \<rparr>)"
proof -
  obtain l1 ls q1 qm ql where l: "loud = l1 # ls" "length ls = 19"
    and q: "quiet = q1 # qm @ [ql]" "length qm = 14"
    using speech_then_silence_split [OF assms(1,3)] by blast
  let ?s0 = "listenForWakeWord (newListener 900 (3 / 2))"
  let ?s1 = "?s0\<lparr> chunkCount := 1 \<rparr>"
  let ?s2 = "?s0\<lparr> chunkCount := 20, chunkBuffer := ls \<rparr>"
  let ?s3 = "?s0\<lparr> chunkCount := 21, chunkBuffer := ls @ [q1], silenceStartTime := Some (t + 2000) \<rparr>"
  let ?s4 = "?s0\<lparr> chunkCount := 35, chunkBuffer := ls @ [q1] @ qm,
                  silenceStartTime := Some (t + 2000) \<rparr>"
  let ?s5 = "?s0\<lparr> chunkCount := 36, isProcessing := True, awaitingWakeWord := 1,
                  recognizeCalls := [concat (ls @ [q1] @ qm @ [ql])] \<rparr>"
  have input: "arriving t 100 (loud @ quiet) =
      (l1, t) # arriving (t + 100) 100 ls @
      (q1, t + 2000) # arriving (t + 2100) 100 qm @ [(ql, t + 3500)]"
    using l q by (simp add: arriving_append add.commute)
  have f1: "handleChunk ?s0 l1 t = (Skipped, ?s1)"
    by (simp add: listener_defs)
  have "feed ?s1 (arriving (t + 100) 100 ls) =
          (replicate (length (arriving (t + 100) 100 ls)) Continue,
           ?s1\<lparr> chunkCount := chunkCount ?s1 + length (arriving (t + 100) 100 ls),
                chunkBuffer := chunkBuffer ?s1 @ map fst (arriving (t + 100) 100 ls) \<rparr>)"
  proof (rule feed_loud)
    show "\<not> skipping ?s1" by (simp add: skipping_def listener_defs)
    show "silenceStartTime ?s1 = None" by (simp add: listener_defs)
    show "mode ?s1 = wake_word \<or> hasReceivedAudio ?s1" by (simp add: listener_defs)
    show "\<forall>(c, u) \<in> set (arriving (t + 100) 100 ls).
            \<exists>v. chunkMaxVolume c 0 = Inr v \<and> v \<ge> volumeThreshold ?s1"
      using assms(2) l arriving_set [of _ _ "t + 100" 100 ls]
      by (auto simp: listener_defs)
  qed
  then have f2: "feed ?s1 (arriving (t + 100) 100 ls) = (replicate 19 Continue, ?s2)"
    using l(2) by (simp add: map_fst_arriving length_arriving listener_defs)
  obtain v1 where v1: "chunkMaxVolume q1 0 = Inr v1" "v1 < 900"
    using assms(4) q by auto
  have f3: "handleChunk ?s2 q1 (t + 2000) = (Continue, ?s3)"
    using v1 by (simp add: listener_defs)
  have "feed ?s3 (arriving (t + 2100) 100 qm) =
          (replicate (length (arriving (t + 2100) 100 qm)) Continue,
           ?s3\<lparr> chunkCount := chunkCount ?s3 + length (arriving (t + 2100) 100 qm),
                chunkBuffer := chunkBuffer ?s3 @ map fst (arriving (t + 2100) 100 qm) \<rparr>)"
  proof (rule feed_quiet [where ?t0.0 = "t + 2000"])
    show "\<not> skipping ?s3" by (simp add: skipping_def listener_defs)
    show "silenceStartTime ?s3 = Some (t + 2000)" by (simp add: listener_defs)
    show "\<forall>(c, u) \<in> set (arriving (t + 2100) 100 qm).
            (\<exists>v. chunkMaxVolume c 0 = Inr v \<and> v < volumeThreshold ?s3) \<and>
            of_int (u - (t + 2000)) < silenceDuration ?s3 * 1000"
    proof (clarify)
      fix c u assume m: "(c, u) \<in> set (arriving (t + 2100) 100 qm)"
      have r: "c \<in> set qm \<and> t + 2100 \<le> u \<and> u \<le> t + 2100 + 100 * (int (length qm) - 1)"
        using arriving_set [OF m] by simp
      then have "u - (t + 2000) < 1500" using q(2) by simp
      then have "real_of_int (u - (t + 2000)) < 1500" by linarith
      moreover have "\<exists>v. chunkMaxVolume c 0 = Inr v \<and> v < 900"
        using assms(4) q r by auto
      ultimately show "(\<exists>v. chunkMaxVolume c 0 = Inr v \<and> v < volumeThreshold ?s3) \<and>
            of_int (u - (t + 2000)) < silenceDuration ?s3 * 1000"
        by (simp add: listener_defs)
    qed
  qed
  then have f4: "feed ?s3 (arriving (t + 2100) 100 qm) = (replicate 14 Continue, ?s4)"
    using q(2) by (simp add: map_fst_arriving length_arriving listener_defs)
  obtain v2 where v2: "chunkMaxVolume ql 0 = Inr v2" "v2 < 900"
    using assms(4) q by auto
  have f5: "handleChunk ?s4 ql (t + 3500) = (Boundary, ?s5)"
    using v2 by (simp add: listener_defs)
  have g5: "feed ?s4 [(ql, t + 3500)] = ([Boundary], ?s5)"
    by (rule feed_one [OF f5])
  have g4: "feed ?s3 (arriving (t + 2100) 100 qm @ [(ql, t + 3500)]) =
              (replicate 14 Continue @ [Boundary], ?s5)"
    by (rule feed_app [OF f4 g5])
  have g3: "feed ?s2 ((q1, t + 2000) # arriving (t + 2100) 100 qm @ [(ql, t + 3500)]) =
              (Continue # replicate 14 Continue @ [Boundary], ?s5)"
    by (rule feed_step [OF f3 g4])
  have g2: "feed ?s1 (arriving (t + 100) 100 ls @
                (q1, t + 2000) # arriving (t + 2100) 100 qm @ [(ql, t + 3500)]) =
              (replicate 19 Continue @ Continue # replicate 14 Continue @ [Boundary], ?s5)"
    by (rule feed_app [OF f2 g3])
  have g1: "feed ?s0 (arriving t 100 (loud @ quiet)) =
              (Skipped # replicate 19 Continue @ Continue # replicate 14 Continue @ [Boundary],
               ?s5)"
    unfolding input by (rule feed_step [OF f1 g2])
  have outs: "Skipped # replicate 19 Continue @ Continue # replicate 14 Continue @ [Boundary]
      = Skipped # replicate 34 Continue @ [Boundary]"
    by (simp add: numeral_eq_Suc)
  have calls: "concat (ls @ [q1] @ qm @ [ql]) = concat (tl (loud @ quiet))"
    using l q by simp
  show ?thesis
    using g1 unfolding outs calls .
qed

lemma command_speech_then_silence:
  assumes "length loud = 20"
      and "\<forall>c \<in> set loud. \<exists>v. chunkMaxVolume c 0 = Inr v \<and> v \<ge> 900"
      and "length quiet = 16"
      and "\<forall>c \<in> set quiet. \<exists>v. chunkMaxVolume c 0 = Inr v \<and> v < 900"
  shows "feed (listenForCommand (newListener 900 (3 / 2))) (arriving t 100 (loud @ quiet)) =
           (replicate 5 Skipped @ replicate 30 Continue @ [Boundary],
            (listenForCommand (newListener 900 (3 / 2)))
              \<lparr> chunkCount := 36, hasReceivedAudio := True, isProcessing := True,
                awaitingCommand := 1, silenceStartTime := Some (t + 2000),
                recognizeCalls := [concat (drop 5 (loud @ quiet))] \<rparr>)"
proof -
  obtain l1 ls q1 qm ql where l: "loud = l1 # ls" "length ls = 19"
    and q: "quiet = q1 # qm @ [ql]" "length qm = 14"
    using speech_then_silence_split [OF assms(1,3)] by blast
  define la where "la = take 5 loud"
  define l6 where "l6 = loud ! 5"
  define lb where "lb = drop 6 loud"
  have "loud = take 5 loud @ loud ! 5 # drop (Suc 5) loud"
    using assms(1) by (intro id_take_nth_drop) simp
  then have loud: "loud = la @ l6 # lb"
    by (simp add: la_def l6_def lb_def)
  have la: "length la = 5" and lb: "length lb = 14"
    using assms(1) by (simp_all add: la_def lb_def)
  let ?s0 = "listenForCommand (newListener 900 (3 / 2))"
  let ?s1 = "?s0\<lparr> chunkCount := 5 \<rparr>"
  let ?s2 = "?s0\<lparr> chunkCount := 6, hasReceivedAudio := True, chunkBuffer := [l6] \<rparr>"
  let ?s3 = "?s0\<lparr> chunkCount := 20, hasReceivedAudio := True, chunkBuffer := [l6] @ lb \<rparr>"
  let ?s4 = "?s0\<lparr> chunkCount := 21, hasReceivedAudio := True,
                  chunkBuffer := [l6] @ lb @ [q1], silenceStartTime := Some (t + 2000) \<rparr>"
  let ?s5 = "?s0\<lparr> chunkCount := 35, hasReceivedAudio := True,
                  chunkBuffer := [l6] @ lb @ [q1] @ qm, silenceStartTime := Some (t + 2000) \<rparr>"
  let ?s6 = "?s0\<lparr> chunkCount := 36, hasReceivedAudio := True, isProcessing := True,
                  awaitingCommand := 1, silenceStartTime := Some (t + 2000),
                  recognizeCalls := [concat ([l6] @ lb @ [q1] @ qm @ [ql])] \<rparr>"
  have input: "arriving t 100 (loud @ quiet) =
      arriving t 100 la @ (l6, t + 500) # arriving (t + 600) 100 lb @
      (q1, t + 2000) # arriving (t + 2100) 100 qm @ [(ql, t + 3500)]"
    using loud la lb q by (simp add: arriving_append add.commute)
  have "feed ?s0 (arriving t 100 la) =
          (replicate (length (arriving t 100 la)) Skipped,
           ?s0\<lparr> chunkCount := chunkCount ?s0 + length (arriving t 100 la) \<rparr>)"
    by (rule feed_command_skips) (simp_all add: listener_defs length_arriving la)
  then have f1: "feed ?s0 (arriving t 100 la) = (replicate 5 Skipped, ?s1)"
    using la by (simp add: length_arriving listener_defs)
  obtain v6 where v6: "chunkMaxVolume l6 0 = Inr v6" "v6 \<ge> 900"
    using assms(2) loud by auto
  have f2: "handleChunk ?s1 l6 (t + 500) = (Continue, ?s2)"
    using v6 by (simp add: listener_defs)
  have "feed ?s2 (arriving (t + 600) 100 lb) =
          (replicate (length (arriving (t + 600) 100 lb)) Continue,
           ?s2\<lparr> chunkCount := chunkCount ?s2 + length (arriving (t + 600) 100 lb),
                chunkBuffer := chunkBuffer ?s2 @ map fst (arriving (t + 600) 100 lb) \<rparr>)"
  proof (rule feed_loud)
    show "\<not> skipping ?s2" by (simp add: skipping_def listener_defs)
    show "silenceStartTime ?s2 = None" by (simp add: listener_defs)
    show "mode ?s2 = wake_word \<or> hasReceivedAudio ?s2" by (simp add: listener_defs)
    show "\<forall>(c, u) \<in> set (arriving (t + 600) 100 lb).
            \<exists>v. chunkMaxVolume c 0 = Inr v \<and> v \<ge> volumeThreshold ?s2"
      using assms(2) loud arriving_set [of _ _ "t + 600" 100 lb]
      by (auto simp: listener_defs)
  qed
  then have f3: "feed ?s2 (arriving (t + 600) 100 lb) = (replicate 14 Continue, ?s3)"
    using lb by (simp add: map_fst_arriving length_arriving listener_defs)
  obtain v1 where v1: "chunkMaxVolume q1 0 = Inr v1" "v1 < 900"
    using assms(4) q by auto
  have f4: "handleChunk ?s3 q1 (t + 2000) = (Continue, ?s4)"
    using v1 by (simp add: listener_defs)
  have "feed ?s4 (arriving (t + 2100) 100 qm) =
          (replicate (length (arriving (t + 2100) 100 qm)) Continue,
           ?s4\<lparr> chunkCount := chunkCount ?s4 + length (arriving (t + 2100) 100 qm),
                chunkBuffer := chunkBuffer ?s4 @ map fst (arriving (t + 2100) 100 qm) \<rparr>)"
  proof (rule feed_quiet [where ?t0.0 = "t + 2000"])
    show "\<not> skipping ?s4" by (simp add: skipping_def listener_defs)
    show "silenceStartTime ?s4 = Some (t + 2000)" by (simp add: listener_defs)
    show "\<forall>(c, u) \<in> set (arriving (t + 2100) 100 qm).
            (\<exists>v. chunkMaxVolume c 0 = Inr v \<and> v < volumeThreshold ?s4) \<and>
            of_int (u - (t + 2000)) < silenceDuration ?s4 * 1000"
    proof (clarify)
      fix c u assume m: "(c, u) \<in> set (arriving (t + 2100) 100 qm)"
      have r: "c \<in> set qm \<and> t + 2100 \<le> u \<and> u \<le> t + 2100 + 100 * (int (length qm) - 1)"
        using arriving_set [OF m] by simp
      then have "u - (t + 2000) < 1500" using q(2) by simp
      then have "real_of_int (u - (t + 2000)) < 1500" by linarith
      moreover have "\<exists>v. chunkMaxVolume c 0 = Inr v \<and> v < 900"
        using assms(4) q r by auto
      ultimately show "(\<exists>v. chunkMaxVolume c 0 = Inr v \<and> v < volumeThreshold ?s4) \<and>
            of_int (u - (t + 2000)) < silenceDuration ?s4 * 1000"
        by (simp add: listener_defs)
    qed
  qed
  then have f5: "feed ?s4 (arriving (t + 2100) 100 qm) = (replicate 14 Continue, ?s5)"
    using q(2) by (simp add: map_fst_arriving length_arriving listener_defs)
  obtain v2 where v2: "chunkMaxVolume ql 0 = Inr v2" "v2 < 900"
    using assms(4) q by auto
  have f6: "handleChunk ?s5 ql (t + 3500) = (Boundary, ?s6)"
    using v2 by (simp add: listener_defs)
  have g6: "feed ?s5 [(ql, t + 3500)] = ([Boundary], ?s6)"
    by (rule feed_one [OF f6])
  have g5: "feed ?s4 (arriving (t + 2100) 100 qm @ [(ql, t + 3500)]) =
              (replicate 14 Continue @ [Boundary], ?s6)"
    by (rule feed_app [OF f5 g6])
  have g4: "feed ?s3 ((q1, t + 2000) # arriving (t + 2100) 100 qm @ [(ql, t + 3500)]) =
              (Continue # replicate 14 Continue @ [Boundary], ?s6)"
    by (rule feed_step [OF f4 g5])
  have g3: "feed ?s2 (arriving (t + 600) 100 lb @
                (q1, t + 2000) # arriving (t + 2100) 100 qm @ [(ql, t + 3500)]) =
              (replicate 14 Continue @ Continue # replicate 14 Continue @ [Boundary], ?s6)"
    by (rule feed_app [OF f3 g4])
  have g2: "feed ?s1 ((l6, t + 500) # arriving (t + 600) 100 lb @
                (q1, t + 2000) # arriving (t + 2100) 100 qm @ [(ql, t + 3500)]) =
              (Continue # replicate 14 Continue @ Continue # replicate 14 Continue @ [Boundary],
               ?s6)"
    by (rule feed_step [OF f2 g3])
  have g1: "feed ?s0 (arriving t 100 (loud @ quiet)) =
              (replicate 5 Skipped @
               Continue # replicate 14 Continue @ Continue # replicate 14 Continue @ [Boundary],
               ?s6)"
    unfolding input by (rule feed_app [OF f1 g2])
  have outs: "replicate 5 Skipped @
        Continue # replicate 14 Continue @ Continue # replicate 14 Continue @ [Boundary]
      = replicate 5 Skipped @ replicate 30 Continue @ [Boundary]"
    by (simp add: numeral_eq_Suc)
  have calls: "concat ([l6] @ lb @ [q1] @ qm @ [ql]) = concat (drop 5 (loud @ quiet))"
    using loud la q by simp
  show ?thesis
    using g1 unfolding outs calls .
qed

text \<open>
  C3, as the code has it. With a threshold of 900, a silence duration of 1.5 s and chunks
  arriving every 100 ms, 20 chunks that reach the threshold followed by 16 that stay below
  it cause exactly one boundary, at chunk 36: the timer starts at the arrival of chunk 21,
  the first silent one, and 1.5 s have passed when chunk 36 arrives. The buffer handed to
  the transcription holds chunks 2 to 36 after \<^verbatim>\<open>listenForWakeWord\<close> on a new listener
  and chunks 6 to 36 after \<^verbatim>\<open>listenForCommand\<close>, and the chunk buffer is empty
  afterwards.
\<close>

theorem speech_then_silence_boundary:
  assumes "length loud = 20"
      and "\<forall>c \<in> set loud. \<exists>v. chunkMaxVolume c 0 = Inr v \<and> v \<ge> 900"
      and "length quiet = 16"
      and "\<forall>c \<in> set quiet. \<exists>v. chunkMaxVolume c 0 = Inr v \<and> v < 900"
  shows "fst (feed (listenForWakeWord (newListener 900 (3 / 2))) (arriving t 100 (loud @ quiet)))
           = Skipped # replicate 34 Continue @ [Boundary] \<and>
         recognizeCalls
           (snd (feed (listenForWakeWord (newListener 900 (3 / 2))) (arriving t 100 (loud @ quiet))))
           = [concat (tl (loud @ quiet))] \<and>
         chunkBuffer
           (snd (feed (listenForWakeWord (newListener 900 (3 / 2))) (arriving t 100 (loud @ quiet))))
           = [] \<and>
         fst (feed (listenForCommand (newListener 900 (3 / 2))) (arriving t 100 (loud @ quiet)))
           = replicate 5 Skipped @ replicate 30 Continue @ [Boundary] \<and>
         recognizeCalls
           (snd (feed (listenForCommand (newListener 900 (3 / 2))) (arriving t 100 (loud @ quiet))))
           = [concat (drop 5 (loud @ quiet))] \<and>
         chunkBuffer
           (snd (feed (listenForCommand (newListener 900 (3 / 2))) (arriving t 100 (loud @ quiet))))
           = []"
  unfolding wake_word_speech_then_silence [OF assms] command_speech_then_silence [OF assms]
  by (simp add: listenForWakeWord_def listenForCommand_def newListener_def)

theorem speech_then_silence_boundary_witness:
  "fst (feed (listenForWakeWord (newListener 900 (3 / 2)))
          (arriving 100 100 (replicate 20 [232, 3] @ replicate 16 [0, 0])))
     = Skipped # replicate 34 Continue @ [Boundary] \<and>
   recognizeCalls (snd (feed (listenForWakeWord (newListener 900 (3 / 2)))
          (arriving 100 100 (replicate 20 [232, 3] @ replicate 16 [0, 0]))))
     = [concat (tl (replicate 20 [232, 3] @ replicate 16 [0, 0]))] \<and>
   recognizeCalls (snd (feed (listenForCommand (newListener 900 (3 / 2)))
          (arriving 100 100 (replicate 20 [232, 3] @ replicate 16 [0, 0]))))
     = [concat (drop 5 (replicate 20 [232, 3] @ replicate 16 [0, 0]))]"
proof -
  have a: "length (replicate 20 [232, 3 :: byte]) = 20"
    by simp
  have b: "\<forall>c \<in> set (replicate 20 [232, 3 :: byte]). \<exists>v. chunkMaxVolume c 0 = Inr v \<and> v \<ge> 900"
    by (simp add: readInt16LE_def)
  have c: "length (replicate 16 [0, 0 :: byte]) = 16"
    by simp
  have d: "\<forall>c \<in> set (replicate 16 [0, 0 :: byte]). \<exists>v. chunkMaxVolume c 0 = Inr v \<and> v < 900"
    by (simp add: readInt16LE_def)
  from speech_then_silence_boundary [OF a b c d, of 100] show ?thesis
    by (simp only:)
qed

text \<open>
  C3 as stated fails: when chunk 35 has been handled no boundary has fired, nothing has
  been handed to the transcription, and the timer, started at 2100 ms, has run for 1.4 s.
\<close>

theorem boundary_at_chunk_35_counterexample:
  "feed (listenForWakeWord (newListener 900 (3 / 2)))
          (arriving 100 100 (replicate 20 [232, 3] @ replicate 15 [0, 0]))
     = (Skipped # replicate 34 Continue,
        (listenForWakeWord (newListener 900 (3 / 2)))
          \<lparr> chunkCount := 35, silenceStartTime := Some 2100,
            chunkBuffer := replicate 19 [232, 3] @ replicate 15 [0, 0] \<rparr>)"
  by code_simp

section \<open>Command mode after the first dispatch\<close>

lemma step_latched:
  assumes "mode s = command" and "isProcessing s" and "\<not> clearsProcessing s e"
  shows "mode (step s e) = command \<and> isProcessing (step s e) \<and>
         awaitingWakeWord (step s e) = awaitingWakeWord s \<and>
         recognizeCalls (step s e) = recognizeCalls s"
proof (cases e)
  case (Data c t)
  then show ?thesis
    using assms
    by (auto simp: handleChunk_def processCommand_def Let_def
        split: sum.splits option.splits if_splits)
next
  case (StreamError x)
  then show ?thesis using assms by (auto simp: onStreamError_def split: option.splits)
next
  case ListenForWakeWord
  then show ?thesis using assms by (simp add: clearsProcessing_def)
next
  case ListenForCommand
  then show ?thesis using assms by (simp add: clearsProcessing_def)
next
  case (WakeWordTranscribed r)
  then show ?thesis using assms by (simp add: clearsProcessing_def)
next
  case (CommandTranscribed r)
  then show ?thesis
    using assms by (auto simp: processCommand_resume_def split: option.splits sum.splits)
qed

lemma clearsProcessing_awaiting:
  "awaitingWakeWord s' = awaitingWakeWord s \<Longrightarrow> clearsProcessing s' e = clearsProcessing s e"
  by (simp add: clearsProcessing_def split: event.splits)

lemma run_latched:
  assumes "mode s = command" and "isProcessing s"
      and "\<forall>e \<in> set evs. \<not> clearsProcessing s e"
  shows "mode (run s evs) = command \<and> isProcessing (run s evs) \<and>
         recognizeCalls (run s evs) = recognizeCalls s"
  using assms
proof (induction evs arbitrary: s)
  case Nil
  then show ?case by simp
next
  case (Cons e evs)
  have one: "mode (step s e) = command \<and> isProcessing (step s e) \<and>
         awaitingWakeWord (step s e) = awaitingWakeWord s \<and>
         recognizeCalls (step s e) = recognizeCalls s"
    using step_latched [of s e] Cons.prems by simp
  then have "\<forall>e' \<in> set evs. \<not> clearsProcessing (step s e) e'"
    using Cons.prems(3) clearsProcessing_awaiting [of "step s e" s] by simp
  then show ?case
    using Cons.IH [of "step s e"] one by simp
qed

text \<open>
  C8, as the code has it. \<^verbatim>\<open>processCommand\<close> has \<open>isProcessing\<close> set whenever it hands a
  buffer to the transcription, and its continuation leaves the flag as it is, whether the
  transcription returns or throws. Three events clear the flag: the two listen requests
  and the completion of a \<^verbatim>\<open>processWakeWord\<close> that was suspended. In command mode, once
  the flag is set, whatever chunks, command transcriptions and stream errors follow, no
  further buffer is handed to the transcription for as long as none of those three events
  occurs, also while a wake-word transcription is still in flight.
\<close>

theorem command_processing_latched:
  "(recognizeCalls (processCommand s) \<noteq> recognizeCalls s \<longrightarrow> isProcessing (processCommand s)) \<and>
   isProcessing (processCommand_resume s r) = isProcessing s \<and>
   (clearsProcessing s e \<longrightarrow> \<not> isProcessing (step s e)) \<and>
   (mode s = command \<and> isProcessing s \<and> (\<forall>e \<in> set evs. \<not> clearsProcessing s e) \<longrightarrow>
      recognizeCalls (run s evs) = recognizeCalls s \<and> isProcessing (run s evs) \<and>
      mode (run s evs) = command)"
proof -
  have a: "recognizeCalls (processCommand s) \<noteq> recognizeCalls s \<longrightarrow> isProcessing (processCommand s)"
    by (simp add: processCommand_def)
  have b: "isProcessing (processCommand_resume s r) = isProcessing s"
    by (simp add: processCommand_resume_def split: sum.splits option.splits)
  have c: "clearsProcessing s e \<longrightarrow> \<not> isProcessing (step s e)"
    by (cases e)
      (simp_all add: clearsProcessing_def listenForWakeWord_def listenForCommand_def
        processWakeWord_resume_def Let_def)
  have d: "mode s = command \<and> isProcessing s \<and> (\<forall>e \<in> set evs. \<not> clearsProcessing s e) \<longrightarrow>
      recognizeCalls (run s evs) = recognizeCalls s \<and> isProcessing (run s evs) \<and>
      mode (run s evs) = command"
    using run_latched [of s evs] by blast
  from a b c d show ?thesis by blast
qed

theorem command_processing_latched_witness:
  "awaitingWakeWord (run (newListener 900 1.5)
       [ListenForWakeWord, Data [0, 0] 100, Data [232, 3] 200, Data [0, 0] 300, Data [0, 0] 1800,
        ListenForCommand, Data [0, 0] 1900, Data [0, 0] 2000, Data [0, 0] 2100, Data [0, 0] 2200,
        Data [0, 0] 2300, Data [232, 3] 2400, Data [0, 0] 2500, Data [0, 0] 4000]) = 1 \<and>
   recognizeCalls (run (run (newListener 900 1.5)
       [ListenForWakeWord, Data [0, 0] 100, Data [232, 3] 200, Data [0, 0] 300, Data [0, 0] 1800,
        ListenForCommand, Data [0, 0] 1900, Data [0, 0] 2000, Data [0, 0] 2100, Data [0, 0] 2200,
        Data [0, 0] 2300, Data [232, 3] 2400, Data [0, 0] 2500, Data [0, 0] 4000])
      [CommandTranscribed (Inr ''turn on the light''), Data [0, 0] 4100,
       StreamError (Error ''EPIPE''), Data [0, 0] 5600])
     = [[232, 3, 0, 0, 0, 0], [232, 3, 0, 0, 0, 0]] \<and>
   fst (handleChunk (run (newListener 900 1.5)
       [ListenForWakeWord, Data [0, 0] 100, Data [232, 3] 200, Data [0, 0] 300, Data [0, 0] 1800,
        ListenForCommand, Data [0, 0] 1900, Data [0, 0] 2000, Data [0, 0] 2100, Data [0, 0] 2200,
        Data [0, 0] 2300, Data [232, 3] 2400, Data [0, 0] 2500, Data [0, 0] 4000,
        CommandTranscribed (Inr ''turn on the light'')]) [0, 0] 4100) = Boundary \<and>
   \<not> isProcessing (step (run (newListener 900 1.5)
       [ListenForWakeWord, Data [0, 0] 100, Data [232, 3] 200, Data [0, 0] 300, Data [0, 0] 1800,
        ListenForCommand, Data [0, 0] 1900, Data [0, 0] 2000, Data [0, 0] 2100, Data [0, 0] 2200,
        Data [0, 0] 2300, Data [232, 3] 2400, Data [0, 0] 2500, Data [0, 0] 4000])
      (WakeWordTranscribed (Inr '''')))"
  using
    command_processing_latched [of
      "run (newListener 900 1.5)
       [ListenForWakeWord, Data [0, 0] 100, Data [232, 3] 200, Data [0, 0] 300, Data [0, 0] 1800,
        ListenForCommand, Data [0, 0] 1900, Data [0, 0] 2000, Data [0, 0] 2100, Data [0, 0] 2200,
        Data [0, 0] 2300, Data [232, 3] 2400, Data [0, 0] 2500, Data [0, 0] 4000]"
      "Inr ''turn on the light''"
      "WakeWordTranscribed (Inr '''')"
      "[CommandTranscribed (Inr ''turn on the light''), Data [0, 0] 4100,
        StreamError (Error ''EPIPE''), Data [0, 0] 5600]"]
  by (simp add: listener_defs clearsProcessing_def)

text \<open>
  C8 as stated fails when a \<^verbatim>\<open>processWakeWord\<close> is still suspended: its continuation
  sets \<open>isProcessing\<close> to false. Here the command listen starts while the wake-word
  transcription is in flight; the command boundary at 4000 ms is dispatched, the wake-word
  transcription returns, and the boundary at 4100 ms, in the same command listen, is
  dispatched too.
\<close>

theorem stale_wake_word_counterexample:
  "run (newListener 900 1.5)
       [ListenForWakeWord, Data [0, 0] 100, Data [232, 3] 200, Data [0, 0] 300, Data [0, 0] 1800,
        ListenForCommand, Data [0, 0] 1900, Data [0, 0] 2000, Data [0, 0] 2100, Data [0, 0] 2200,
        Data [0, 0] 2300, Data [232, 3] 2400, Data [0, 0] 2500, Data [0, 0] 4000]
     = (listenForCommand (newListener 900 1.5))
         \<lparr> chunkCount := 8, hasReceivedAudio := True, isProcessing := True,
           nextPromise := 2, currentResolver := Some 1, currentRejector := Some 1,
           silenceStartTime := Some 2500, awaitingWakeWord := 1, awaitingCommand := 1,
           recognizeCalls := [[232, 3, 0, 0, 0, 0], [232, 3, 0, 0, 0, 0]] \<rparr> \<and>
   recognizeCalls (run (newListener 900 1.5)
       [ListenForWakeWord, Data [0, 0] 100, Data [232, 3] 200, Data [0, 0] 300, Data [0, 0] 1800,
        ListenForCommand, Data [0, 0] 1900, Data [0, 0] 2000, Data [0, 0] 2100, Data [0, 0] 2200,
        Data [0, 0] 2300, Data [232, 3] 2400, Data [0, 0] 2500, Data [0, 0] 4000,
        WakeWordTranscribed (Inr ''''), Data [1, 0] 4100])
     = [[232, 3, 0, 0, 0, 0], [232, 3, 0, 0, 0, 0], [1, 0]]"
  by (simp add: listener_defs)

section \<open>The pending result\<close>

lemma handleChunk_promises:
  "settled (snd (handleChunk s c t)) = settled s \<and>
   currentResolver (snd (handleChunk s c t)) = currentResolver s \<and>
   currentRejector (snd (handleChunk s c t)) = currentRejector s \<and>
   nextPromise (snd (handleChunk s c t)) = nextPromise s"
  by (simp add: handleChunk_def processWakeWord_def processCommand_def Let_def
      split: sum.splits option.splits ListenerMode.splits)

lemma step_promises_ok: "promises_ok s \<Longrightarrow> promises_ok (step s e)"
proof (cases e)
  case (Data c t)
  then show "promises_ok s \<Longrightarrow> promises_ok (step s e)"
    using handleChunk_promises [of s c t]
    by (auto simp: promises_ok_def split: option.splits)
next
  case (StreamError x)
  then show "promises_ok s \<Longrightarrow> promises_ok (step s e)"
    by (auto simp: promises_ok_def onStreamError_def list_all_iff split: option.splits)
next
  case ListenForWakeWord
  then show "promises_ok s \<Longrightarrow> promises_ok (step s e)"
    by (auto simp: promises_ok_def listenForWakeWord_def list_all_iff split: option.splits)
next
  case ListenForCommand
  then show "promises_ok s \<Longrightarrow> promises_ok (step s e)"
    by (auto simp: promises_ok_def listenForCommand_def list_all_iff split: option.splits)
next
  case (WakeWordTranscribed r)
  then show "promises_ok s \<Longrightarrow> promises_ok (step s e)"
    by (auto simp: promises_ok_def processWakeWord_resume_def Let_def list_all_iff
        split: option.splits sum.splits)
next
  case (CommandTranscribed r)
  then show "promises_ok s \<Longrightarrow> promises_ok (step s e)"
    by (auto simp: promises_ok_def processCommand_resume_def list_all_iff
        split: option.splits sum.splits)
qed

lemma run_promises_ok: "promises_ok s \<Longrightarrow> promises_ok (run s evs)"
  by (induction evs arbitrary: s) (simp_all add: step_promises_ok)

lemma newListener_promises_ok: "promises_ok (newListener vt sd)"
  by (simp add: promises_ok_def newListener_def)

lemma step_settles:
  "settled (step s e) = settled s \<or>
   (\<exists>k r. settled (step s e) = settled s @ [(k, r)] \<and>
          (currentResolver s = Some k \<or> currentRejector s = Some k) \<and>
          currentResolver (step s e) = None \<and> currentRejector (step s e) = None)"
proof (cases e)
  case (Data c t)
  then show ?thesis
    using handleChunk_promises [of s c t] by simp
next
  case (StreamError x)
  then show ?thesis
    by (auto simp: onStreamError_def split: option.splits)
next
  case ListenForWakeWord
  then show ?thesis
    by (simp add: listenForWakeWord_def)
next
  case ListenForCommand
  then show ?thesis
    by (simp add: listenForCommand_def)
next
  case (WakeWordTranscribed r)
  then show ?thesis
    by (auto simp: processWakeWord_resume_def Let_def split: option.splits sum.splits)
next
  case (CommandTranscribed r)
  then show ?thesis
    by (auto simp: processCommand_resume_def split: option.splits sum.splits)
qed

text \<open>
  C5. Whatever happens to a listener from its construction on (chunks, stream errors,
  listen requests, transcriptions returning or failing, in any order), no promise is
  settled twice: the promises in \<open>settled\<close> are distinct. And every step that settles a
  promise settles the one whose resolver or rejector was held, and leaves both references
  cleared.
\<close>

theorem fulfilled_at_most_once:
  "(let s = run (newListener vt sd) evs; s' = step s e in
    distinct (map fst (settled s)) \<and>
    (settled s' = settled s \<or>
     (\<exists>k r. settled s' = settled s @ [(k, r)] \<and>
            (currentResolver s = Some k \<or> currentRejector s = Some k) \<and>
            currentResolver s' = None \<and> currentRejector s' = None)))"
  using run_promises_ok [OF newListener_promises_ok, of vt sd evs]
    step_settles [of "run (newListener vt sd) evs" e]
  by (simp add: Let_def promises_ok_def)

theorem fulfilled_at_most_once_witness:
  "settled (run (newListener 900 1.5)
      [ListenForWakeWord, Data [0, 0] 0, Data [232, 3] 100, Data [0, 0] 200, Data [0, 0] 1700,
       StreamError (Error ''EPIPE''), WakeWordTranscribed (Inr ''isis'')])
     = [(0, Rejected (Error ''EPIPE''))] \<and>
   distinct (map fst (settled (run (newListener 900 1.5)
      [ListenForWakeWord, Data [0, 0] 0, Data [232, 3] 100, Data [0, 0] 200, Data [0, 0] 1700,
       StreamError (Error ''EPIPE''), WakeWordTranscribed (Inr ''isis'')])))"
  using fulfilled_at_most_once [of 900 "1.5"
      "[ListenForWakeWord, Data [0, 0] 0, Data [232, 3] 100, Data [0, 0] 200, Data [0, 0] 1700,
       StreamError (Error ''EPIPE''), WakeWordTranscribed (Inr ''isis'')]" ListenForWakeWord]
  by (simp add: listener_defs string_defs)

section \<open>What a transcription does to the pending result\<close>




text \<open>
  C7. When the transcription throws: a suspended \<^verbatim>\<open>processWakeWord\<close> logs the error,
  settles nothing, keeps the resolver and the rejector and sets \<open>isProcessing\<close> to false,
  so the listening goes on in the same mode; a suspended \<^verbatim>\<open>processCommand\<close> rejects the
  pending promise with that error and clears both references.
\<close>

theorem transcription_error:
  "(awaitingWakeWord s > 0 \<longrightarrow>
      (let s' = step s (WakeWordTranscribed (Inl e)) in
       consoleErrors s' = consoleErrors s @ [e] \<and> settled s' = settled s \<and>
       currentResolver s' = currentResolver s \<and> currentRejector s' = currentRejector s \<and>
       mode s' = mode s \<and> \<not> isProcessing s')) \<and>
   (awaitingCommand s > 0 \<and> currentRejector s = Some k \<longrightarrow>
      (let s' = step s (CommandTranscribed (Inl e)) in
       settled s' = settled s @ [(k, Rejected e)] \<and>
       currentResolver s' = None \<and> currentRejector s' = None))"
  by (simp add: processWakeWord_resume_def processCommand_resume_def Let_def)

theorem transcription_error_witness:
  "consoleErrors (run (newListener 900 1.5)
      [ListenForWakeWord, Data [0, 0] 0, Data [232, 3] 100, Data [0, 0] 200, Data [0, 0] 1700,
       WakeWordTranscribed (Inl (Error ''timeout''))]) = [Error ''timeout''] \<and>
   settled (run (newListener 900 1.5)
      [ListenForWakeWord, Data [0, 0] 0, Data [232, 3] 100, Data [0, 0] 200, Data [0, 0] 1700,
       WakeWordTranscribed (Inl (Error ''timeout''))]) = [] \<and>
   settled (run (newListener 900 1.5)
      [ListenForCommand, Data [0, 0] 0, Data [0, 0] 100, Data [0, 0] 200, Data [0, 0] 300,
       Data [0, 0] 400, Data [232, 3] 500, Data [0, 0] 600, Data [0, 0] 2100,
       CommandTranscribed (Inl (Error ''timeout''))]) = [(0, Rejected (Error ''timeout''))]"
  using
    transcription_error [of "run (newListener 900 1.5)
      [ListenForWakeWord, Data [0, 0] 0, Data [232, 3] 100, Data [0, 0] 200, Data [0, 0] 1700]"
      "Error ''timeout''" 0]
    transcription_error [of "run (newListener 900 1.5)
      [ListenForCommand, Data [0, 0] 0, Data [0, 0] 100, Data [0, 0] 200, Data [0, 0] 300,
       Data [0, 0] 400, Data [232, 3] 500, Data [0, 0] 600, Data [0, 0] 2100]"
      "Error ''timeout''" 0]
  by (simp add: listener_defs)

section \<open>A stream that delivers no byte\<close>

lemma onData_no_bytes: "concat chunks = [] \<Longrightarrow> onData (b, m) chunks = Inr (b, m)"
  by (induction chunks) auto

text \<open>
  C9, as the code has it. When the audio stream ends having delivered no byte,
  \<^verbatim>\<open>recognizeStream\<close> resolves with the empty string and never runs the transcription
  subprocess; the \<^verbatim>\<open>wav.FileWriter\<close> on the temporary file has been constructed all the
  same, as it is in every call, before any data arrives.
\<close>

theorem recognizeStream_no_bytes:
  assumes "concat chunks = []"
  shows "snd (recognizeStream modelPath env chunks Finished) = Settled (Resolved []) \<and>
         NewWavFileWriter (tempFile env)
           \<in> set (fst (recognizeStream modelPath env chunks Finished)) \<and>
         (\<forall>file args. ExecFile file args
           \<notin> set (fst (recognizeStream modelPath env chunks Finished)))"
  using assms by (simp add: recognizeStream_def Let_def onData_no_bytes)

theorem recognizeStream_no_bytes_witness:
  "snd (recognizeStream ''./models/ggml-base.en.bin''
          \<lparr> devShmExists = True, dateNow = ''1700000000000'',
            execFileResult = Inr ''hello'', tempFileExists = True \<rparr>
          [[], []] Finished) = Settled (Resolved [])"
  using recognizeStream_no_bytes [of "[[], []]" "''./models/ggml-base.en.bin''"
     "\<lparr> devShmExists = True, dateNow = ''1700000000000'',
        execFileResult = Inr ''hello'', tempFileExists = True \<rparr>"]
  by simp

text \<open>
  C9 as stated fails: on a stream that ends at once, the file writer on
  \<^verbatim>\<open>/tmp/audio-1700000000000.wav\<close> is the one effect of the call.
\<close>

theorem recognizeStream_no_bytes_counterexample:
  "recognizeStream ''./models/ggml-base.en.bin''
      \<lparr> devShmExists = False, dateNow = ''1700000000000'',
        execFileResult = Inr ''hello'', tempFileExists = True \<rparr>
      [] Finished
   = ([NewWavFileWriter ''/tmp/audio-1700000000000.wav''], Settled (Resolved []))"
  by (simp add: recognizeStream_def tempFile_def)

section \<open>The conversation history of \<^verbatim>\<open>sendMessage\<close>\<close>

text \<open>
  C10. \<^verbatim>\<open>sendMessage\<close> pushes the user's message before it calls the API: the request
  carries the history with that message at its end. When the call throws, the promise
  rejects with the error and the history keeps the user's message; when it returns, the
  promise resolves with the first choice's content and the history ends with the user's
  and the assistant's messages.
\<close>

theorem sendMessage_history:
  "(let sent = conversationHistory s @ [\<lparr> role = user, content = u \<rparr>];
        req = \<lparr> request_model = model s, messages = sent,
                temperature = 7 / 10, max_tokens = 500 \<rparr>
    in case sendMessage create s u of
         (Inl e, s') \<Rightarrow> create req = Inl e \<and> conversationHistory s' = sent
       | (Inr a, s') \<Rightarrow>
           (\<exists>cs. create req = Inr cs \<and> a = firstContent cs) \<and>
           conversationHistory s' = sent @ [\<lparr> role = assistant, content = a \<rparr>])"
  by (simp add: sendMessage_def Let_def split: sum.splits)

theorem sendMessage_history_witness:
  "fst (sendMessage (\<lambda>r. Inl (Error ''429'')) (newChatGPTService ''gpt-4'') ''hello'')
     = Inl (Error ''429'') \<and>
   map content (conversationHistory
       (snd (sendMessage (\<lambda>r. Inl (Error ''429'')) (newChatGPTService ''gpt-4'') ''hello'')))
     = map content (conversationHistory (newChatGPTService ''gpt-4'')) @ [''hello''] \<and>
   map role (conversationHistory
       (snd (sendMessage (\<lambda>r. Inr [Choice (Some (Reply (Some ''hi there'')))])
               (newChatGPTService ''gpt-4'') ''hello'')))
     = [system, user, assistant]"
  using
    sendMessage_history [of "newChatGPTService ''gpt-4''" "''hello''" "\<lambda>r. Inl (Error ''429'')"]
    sendMessage_history [of "newChatGPTService ''gpt-4''" "''hello''"
      "\<lambda>r. Inr [Choice (Some (Reply (Some ''hi there'')))]"]
  by (auto simp: Let_def newChatGPTService_def split: prod.splits sum.splits)

end
